theory Spec2Isabelle
  imports Main "HOL-Library.Word"
begin

unbundle bit_operations_syntax

section \<open>The data of \<^verbatim>\<open>usi_i2c_slave.c\<close>\<close>

text \<open>
  The file keeps three static bytes (\<^verbatim>\<open>status\<close>, \<^verbatim>\<open>rdir\<close>, \<^verbatim>\<open>ack\<close>), the global
  \<^verbatim>\<open>i2c_slave\<close> (its byte array \<^verbatim>\<open>registers\<close> and its \<^verbatim>\<open>direction\<close>) and the I/O
  registers of the USI and of the port the two bus lines are on. One record holds them all.
  The capacity of \<^verbatim>\<open>registers\<close> is declared in \<^verbatim>\<open>usi_i2c_slave.h\<close>; here it is the length
  of the list. An I/O register is a cell that holds the value last written to it; what
  the hardware puts there between two interrupts is given to the next handler run.
\<close>

record machine =
  status :: "8 word"
  rdir :: "8 word"
  ack :: "8 word"
  registers :: "8 word list"
  direction :: "8 word"
  USIDR :: "8 word"
  USISR :: "8 word"
  USICR :: "8 word"
  I2CD :: "8 word"
  I2CP :: "8 word"

text \<open>
  The positions of the two lines in their port (\<^verbatim>\<open>SDAP\<close>, \<^verbatim>\<open>SCLP\<close>) are macros of
  \<^verbatim>\<open>usi_i2c_slave.h\<close>: they are parameters of the model.
\<close>

record pins =
  SDAP :: nat
  SCLP :: nat

text \<open>Bit positions of the USI registers of the ATtiny25/45/85, as \<^verbatim>\<open>avr/io.h\<close> names them.\<close>

definition USICNT0 :: nat where "USICNT0 = 0"
definition USICNT1 :: nat where "USICNT1 = 1"
definition USICNT2 :: nat where "USICNT2 = 2"
definition USICNT3 :: nat where "USICNT3 = 3"
definition USIDC :: nat where "USIDC = 4"
definition USIPF :: nat where "USIPF = 5"
definition USIOIF :: nat where "USIOIF = 6"
definition USISIF :: nat where "USISIF = 7"
definition USICS1 :: nat where "USICS1 = 3"
definition USIWM1 :: nat where "USIWM1 = 5"
definition USIOIE :: nat where "USIOIE = 6"
definition USISIE :: nat where "USISIE = 7"

text \<open>
  A handler or an accessor that C leaves undefined (an access outside \<^verbatim>\<open>registers\<close>) or
  that has not come back (a wait for the clock line that has not ended) gives a fault.
\<close>

datatype fault = Out_Of_Bounds | Stalled

section \<open>Typed access to the registers\<close>

text \<open>
  The accessors cast \<^verbatim>\<open>i2c_slave.registers + dir\<close> to a pointer to the wider type and go
  through it. The AVR stores the least significant byte at the lowest address.
\<close>

definition store_bytes :: "8 word list \<Rightarrow> nat \<Rightarrow> 8 word list \<Rightarrow> fault + 8 word list" where
  "store_bytes m a bs =
     (if a + length bs \<le> length m
      then Inr (take a m @ bs @ drop (a + length bs) m)
      else Inl Out_Of_Bounds)"

definition load_bytes :: "8 word list \<Rightarrow> nat \<Rightarrow> nat \<Rightarrow> fault + 8 word list" where
  "load_bytes m a n =
     (if a + n \<le> length m then Inr (take n (drop a m)) else Inl Out_Of_Bounds)"

definition bytes_of_16 :: "16 word \<Rightarrow> 8 word list" where
  "bytes_of_16 v = [ucast v, ucast (drop_bit 8 v)]"

definition bytes_of_32 :: "32 word \<Rightarrow> 8 word list" where
  "bytes_of_32 v =
     [ucast v, ucast (drop_bit 8 v), ucast (drop_bit 16 v), ucast (drop_bit 24 v)]"

fun word_of_bytes :: "8 word list \<Rightarrow> 'a::len word" where
  "word_of_bytes [] = 0"
| "word_of_bytes (b # bs) = ucast b OR push_bit 8 (word_of_bytes bs)"

definition poke :: "8 word list \<Rightarrow> 8 word \<Rightarrow> machine \<Rightarrow> fault + machine" where
  "poke bs dir s =
     (case store_bytes (registers s) (unat dir) bs of
        Inl f \<Rightarrow> Inl f
      | Inr m \<Rightarrow> Inr (s\<lparr>registers := m\<rparr>))"

definition peek :: "nat \<Rightarrow> 8 word \<Rightarrow> machine \<Rightarrow> fault + 'a::len word" where
  "peek n dir s =
     (case load_bytes (registers s) (unat dir) n of
        Inl f \<Rightarrow> Inl f
      | Inr bs \<Rightarrow> Inr (word_of_bytes bs))"

definition usi_i2c_save_registers_u8 :: "8 word \<Rightarrow> 8 word \<Rightarrow> machine \<Rightarrow> fault + machine" where
  "usi_i2c_save_registers_u8 data dir s = poke [data] dir s"

definition usi_i2c_save_registers_u16 :: "16 word \<Rightarrow> 8 word \<Rightarrow> machine \<Rightarrow> fault + machine" where
  "usi_i2c_save_registers_u16 data dir s =
     poke (bytes_of_16 (push_bit 8 (data AND 0xFF) OR drop_bit 8 (data AND 0xFF00))) dir s"

definition usi_i2c_save_registers_u32 :: "32 word \<Rightarrow> 8 word \<Rightarrow> machine \<Rightarrow> fault + machine" where
  "usi_i2c_save_registers_u32 data dir s =
     poke (bytes_of_32
        (push_bit 24 (data AND 0x000000FF) OR drop_bit 24 (data AND 0xFF000000) OR
         push_bit 8 (data AND 0x0000FF00) OR drop_bit 8 (data AND 0x00FF0000))) dir s"

text \<open>
  A signed value is kept as its two's complement pattern and read with \<open>sint\<close>. The
  signed writers evaluate the same expression as the unsigned ones, on other types: on
  the AVR \<^verbatim>\<open>int\<close> has 16 bits and \<^verbatim>\<open>long\<close> 32, the constants \<^verbatim>\<open>0xFF00\<close> and
  \<^verbatim>\<open>0xFF000000\<close> do not fit the signed type and are unsigned, and gcc keeps the low
  bits of a signed left shift. Each step below is the value C computes, as an integer.
\<close>

definition usi_i2c_save_registers_s8 :: "8 word \<Rightarrow> 8 word \<Rightarrow> machine \<Rightarrow> fault + machine" where
  "usi_i2c_save_registers_s8 data dir s = poke [word_of_int (sint data)] dir s"

definition swap_s16 :: "int \<Rightarrow> int" where
  "swap_s16 data =
     (let hi = signed_take_bit 15 (push_bit 8 (data AND 0xFF));
          lo = drop_bit 8 (take_bit 16 data AND 0xFF00)
      in signed_take_bit 15 (take_bit 16 hi OR lo))"

definition usi_i2c_save_registers_s16 :: "16 word \<Rightarrow> 8 word \<Rightarrow> machine \<Rightarrow> fault + machine" where
  "usi_i2c_save_registers_s16 data dir s =
     poke (bytes_of_16 (word_of_int (swap_s16 (sint data)))) dir s"

definition swap_s32 :: "int \<Rightarrow> int" where
  "swap_s32 data =
     (let b0 = signed_take_bit 31 (push_bit 24 (data AND 0x000000FF));
          b3 = drop_bit 24 (take_bit 32 data AND 0xFF000000);
          b1 = signed_take_bit 31 (push_bit 8 (data AND 0x0000FF00));
          b2 = drop_bit 8 (data AND 0x00FF0000)
      in signed_take_bit 31 (take_bit 32 b0 OR b3 OR take_bit 32 b1 OR take_bit 32 b2))"

definition usi_i2c_save_registers_s32 :: "32 word \<Rightarrow> 8 word \<Rightarrow> machine \<Rightarrow> fault + machine" where
  "usi_i2c_save_registers_s32 data dir s =
     poke (bytes_of_32 (word_of_int (swap_s32 (sint data)))) dir s"

definition usi_i2c_read_registers_u8 :: "8 word \<Rightarrow> machine \<Rightarrow> fault + 8 word" where
  "usi_i2c_read_registers_u8 dir s = peek 1 dir s"

definition usi_i2c_read_registers_u16 :: "8 word \<Rightarrow> machine \<Rightarrow> fault + 16 word" where
  "usi_i2c_read_registers_u16 dir s = peek 2 dir s"

definition usi_i2c_read_registers_u32 :: "8 word \<Rightarrow> machine \<Rightarrow> fault + 32 word" where
  "usi_i2c_read_registers_u32 dir s = peek 4 dir s"

definition usi_i2c_read_registers_s8 :: "8 word \<Rightarrow> machine \<Rightarrow> fault + 8 word" where
  "usi_i2c_read_registers_s8 dir s = peek 1 dir s"

definition usi_i2c_read_registers_s16 :: "8 word \<Rightarrow> machine \<Rightarrow> fault + 16 word" where
  "usi_i2c_read_registers_s16 dir s = peek 2 dir s"

definition usi_i2c_read_registers_s32 :: "8 word \<Rightarrow> machine \<Rightarrow> fault + 32 word" where
  "usi_i2c_read_registers_s32 dir s = peek 4 dir s"

section \<open>The two interrupt handlers\<close>

text \<open>\<^verbatim>\<open>(1<<n)\<close>, as a byte.\<close>

definition bitv :: "nat \<Rightarrow> 8 word" where
  "bitv n = push_bit n 1"

definition USICNT :: "8 word" where
  "USICNT = bitv USICNT3 OR bitv USICNT2 OR bitv USICNT1 OR bitv USICNT0"

text \<open>\<^verbatim>\<open>ISR(USI_START_vect)\<close>: a start condition was detected.\<close>

definition USI_START_vect :: "pins \<Rightarrow> machine \<Rightarrow> machine" where
  "USI_START_vect p s =
     (let s1 = s\<lparr>I2CD := I2CD s OR bitv (SCLP p)\<rparr>;
          s2 = (if status s1 = 2 then s1\<lparr>status := 0\<rparr>
                else s1\<lparr>USICR := USICR s1 OR bitv USIOIE, USIDR := 0\<rparr>);
          s3 = s2\<lparr>USISR := NOT USICNT\<rparr>
      in s3\<lparr>I2CD := I2CD s3 AND NOT (bitv (SCLP p))\<rparr>)"

text \<open>
  \<^verbatim>\<open>loop_until_bit_is_clear(I2CPN, SCLP)\<close> reads the pin register until the bit is
  clear. The list holds what the successive reads of \<^verbatim>\<open>I2CPN\<close> give; the wait is over
  at the first reading with the bit clear, and is not over when the readings end first.
\<close>

fun loop_until_bit_is_clear :: "nat \<Rightarrow> 8 word list \<Rightarrow> fault + 8 word list" where
  "loop_until_bit_is_clear b [] = Inl Stalled"
| "loop_until_bit_is_clear b (x # xs) =
     (if bit x b then loop_until_bit_is_clear b xs else Inr xs)"

text \<open>The block \<^verbatim>\<open>if (status == 5)\<close> of the ACK mode: the master's ACK or NACK.\<close>

definition ovf_master_reply :: "pins \<Rightarrow> 8 word list \<Rightarrow> machine \<Rightarrow> fault + machine" where
  "ovf_master_reply p pn s =
     (case pn of
        [] \<Rightarrow> Inl Stalled
      | x # xs \<Rightarrow>
          if \<not> bit x (SDAP p) then
            (let s1 = s\<lparr>status := 4\<rparr>;
                 s2 = s1\<lparr>I2CD := I2CD s1 OR bitv (SDAP p)\<rparr>;
                 s3 = s2\<lparr>rdir := rdir s2 + 1\<rparr>
             in case loop_until_bit_is_clear (SCLP p) xs of
                  Inl f \<Rightarrow> Inl f
                | Inr _ \<Rightarrow> Inr s3)
          else
            (case loop_until_bit_is_clear (SCLP p) xs of
               Inl f \<Rightarrow> Inl f
             | Inr _ \<Rightarrow>
                 (let s1 = s\<lparr>status := 0\<rparr>;
                      s2 = s1\<lparr>rdir := 0\<rparr>;
                      s3 = s2\<lparr>I2CP := I2CP s2 AND NOT (bitv (SDAP p))\<rparr>;
                      s4 = s3\<lparr>I2CD := I2CD s3 AND NOT (bitv (SDAP p))\<rparr>
                  in Inr (s4\<lparr>USICR := USICR s4 AND NOT (bitv USIOIE)\<rparr>))))"

text \<open>The chain \<^verbatim>\<open>if (status == 3) ... else if (status == 4) ... else ...\<close> of the ACK mode.\<close>

definition ovf_after_ack :: "pins \<Rightarrow> machine \<Rightarrow> fault + machine" where
  "ovf_after_ack p s =
     (if status s = 3 then
        (let s1 = s\<lparr>I2CD := I2CD s OR bitv (SCLP p)\<rparr>;
             s2 = (if bit (USISR s1) USIPF
                   then s1\<lparr>rdir := 0, status := 0, USICR := USICR s1 AND NOT (bitv USIOIE)\<rparr>
                   else s1\<lparr>status := 2, rdir := rdir s1 + 1\<rparr>)
         in Inr (s2\<lparr>I2CD := I2CD s2 AND NOT (bitv (SDAP p))\<rparr>))
      else if status s = 4 then
        (let s1 = s\<lparr>I2CD := I2CD s OR bitv (SCLP p)\<rparr>
         in if unat (rdir s1) < length (registers s1)
            then Inr (s1\<lparr>USIDR := registers s1 ! unat (rdir s1),
                         I2CP := I2CP s1 OR bitv (SDAP p)\<rparr>)
            else Inl Out_Of_Bounds)
      else
        (let s1 = s\<lparr>I2CD := I2CD s OR bitv (SCLP p)\<rparr>
         in Inr (s1\<lparr>I2CD := I2CD s1 AND NOT (bitv (SDAP p))\<rparr>)))"

definition ovf_ack_mode :: "pins \<Rightarrow> 8 word list \<Rightarrow> machine \<Rightarrow> fault + machine" where
  "ovf_ack_mode p pn s =
     (case (if status s = 5 then ovf_master_reply p pn s else Inr s) of
        Inl f \<Rightarrow> Inl f
      | Inr s1 \<Rightarrow>
          (case ovf_after_ack p s1 of
             Inl f \<Rightarrow> Inl f
           | Inr s2 \<Rightarrow> Inr (s2\<lparr>ack := 0, USISR := NOT USICNT\<rparr>)))"

text \<open>The chain on \<^verbatim>\<open>status\<close> of the byte mode (\<^verbatim>\<open>ack == 0\<close>).\<close>

definition ovf_byte :: "pins \<Rightarrow> machine \<Rightarrow> fault + machine" where
  "ovf_byte p s =
     (if status s = 0 then
        (let wrrd = USIDR s AND 0x1;
             dire = drop_bit 1 (USIDR s)
         in if dire = direction s then
              (let s1 = (if wrrd = 1 then s\<lparr>status := 4\<rparr> else s\<lparr>status := status s + 1\<rparr>);
                   s2 = s1\<lparr>I2CD := I2CD s1 OR bitv (SDAP p)\<rparr>
               in Inr (s2\<lparr>ack := 1\<rparr>))
            else Inr s)
      else if status s = 1 then
        (let s1 = s\<lparr>rdir := USIDR s\<rparr>;
             s2 = s1\<lparr>I2CD := I2CD s1 OR bitv (SDAP p)\<rparr>;
             s3 = s2\<lparr>ack := 1\<rparr>
         in Inr (s3\<lparr>status := status s3 + 1\<rparr>))
      else if status s = 2 then
        (if unat (rdir s) < length (registers s) then
           (let s1 = s\<lparr>registers := (registers s)[unat (rdir s) := USIDR s]\<rparr>;
                s2 = s1\<lparr>I2CD := I2CD s1 OR bitv (SDAP p)\<rparr>;
                s3 = s2\<lparr>ack := 1\<rparr>
            in Inr (s3\<lparr>status := status s3 + 1\<rparr>))
         else Inl Out_Of_Bounds)
      else if status s = 4 then
        (let s1 = s\<lparr>USISR := USISR s OR bitv USICNT0\<rparr>;
             s2 = s1\<lparr>I2CD := I2CD s1 AND NOT (bitv (SDAP p))\<rparr>;
             s3 = s2\<lparr>ack := 1\<rparr>
         in Inr (s3\<lparr>status := status s3 + 1\<rparr>))
      else Inr s)"

definition ovf_byte_mode :: "pins \<Rightarrow> machine \<Rightarrow> fault + machine" where
  "ovf_byte_mode p s =
     (let s1 = s\<lparr>I2CD := I2CD s OR bitv (SCLP p)\<rparr>;
          s2 = s1\<lparr>USISR := NOT (USISR s1) AND NOT USICNT\<rparr>
      in case ovf_byte p s2 of
           Inl f \<Rightarrow> Inl f
         | Inr s3 \<Rightarrow>
             (let s4 = (if ack s3 \<noteq> 0
                        then s3\<lparr>USISR := USISR s3 OR (bitv USICNT3 OR bitv USICNT2 OR bitv USICNT1)\<rparr>
                        else s3);
                  s5 = s4\<lparr>USIDR := 0\<rparr>
              in Inr (s5\<lparr>USISR := USISR s5 OR (bitv USIOIF OR bitv USISIF)\<rparr>)))"

text \<open>
  \<^verbatim>\<open>ISR(USI_OVF_vect)\<close>: the bit counter overflowed. \<open>pn\<close> holds what the reads of
  \<^verbatim>\<open>I2CPN\<close> during this run give.
\<close>

definition USI_OVF_vect :: "pins \<Rightarrow> 8 word list \<Rightarrow> machine \<Rightarrow> fault + machine" where
  "USI_OVF_vect p pn s =
     (case (if ack s \<noteq> 0 then ovf_ack_mode p pn s else ovf_byte_mode p s) of
        Inl f \<Rightarrow> Inl f
      | Inr s1 \<Rightarrow> Inr (s1\<lparr>I2CD := I2CD s1 AND NOT (bitv (SCLP p))\<rparr>))"

text \<open>\<^verbatim>\<open>usi_i2c_slave(dir)\<close>, without \<^verbatim>\<open>sei()\<close>: interrupts are taken as globally enabled.\<close>

definition usi_i2c_slave :: "pins \<Rightarrow> 8 word \<Rightarrow> machine \<Rightarrow> machine" where
  "usi_i2c_slave p dir s =
     (let s1 = s\<lparr>I2CP := I2CP s AND NOT (bitv (SDAP p) OR bitv (SCLP p))\<rparr>;
          s2 = s1\<lparr>I2CD := I2CD s1 AND NOT (bitv (SDAP p) OR bitv (SCLP p))\<rparr>;
          s3 = s2\<lparr>USICR := bitv USISIE OR bitv USIWM1 OR bitv USICS1\<rparr>;
          s4 = s3\<lparr>USISR := bitv USISIF OR bitv USIOIF OR bitv USIPF OR bitv USIDC\<rparr>
      in s4\<lparr>direction := dir\<rparr>)"

text \<open>
  The state at power-on: the statics are initialised to 0 by the file, a global array of
  \<open>n\<close> bytes is zeroed by the C runtime, the I/O registers are cleared by the reset.
\<close>

definition power_on :: "nat \<Rightarrow> machine" where
  "power_on n =
     \<lparr>status = 0, rdir = 0, ack = 0, registers = replicate n 0, direction = 0,
      USIDR = 0, USISR = 0, USICR = 0, I2CD = 0, I2CP = 0\<rparr>"

section \<open>Bus events\<close>

text \<open>
  The hardware runs a handler when its interrupt is enabled in \<^verbatim>\<open>USICR\<close>. An overflow
  comes with the contents the USI has given to \<^verbatim>\<open>USIDR\<close> (the bits shifted in) and to
  \<^verbatim>\<open>USISR\<close> (the flags), and with the readings of the pin register.
\<close>

datatype event = START | OVF "8 word" "8 word" "8 word list"

fun deliver :: "pins \<Rightarrow> event \<Rightarrow> machine \<Rightarrow> fault + machine" where
  "deliver p START s =
     (if bit (USICR s) USISIE then Inr (USI_START_vect p s) else Inr s)"
| "deliver p (OVF dr sr pn) s =
     (if bit (USICR s) USIOIE
      then USI_OVF_vect p pn (s\<lparr>USIDR := dr, USISR := sr\<rparr>)
      else Inr (s\<lparr>USIDR := dr, USISR := sr\<rparr>))"

text \<open>
  The byte an event makes the slave put on the bus: the overflow handler loads
  \<^verbatim>\<open>USIDR\<close> from \<^verbatim>\<open>registers[rdir]\<close> in the ACK mode when \<^verbatim>\<open>status\<close> is 4 at its second
  test, and \<^verbatim>\<open>status\<close> does not change after that test.
\<close>

fun sent :: "event \<Rightarrow> machine \<Rightarrow> machine \<Rightarrow> 8 word list" where
  "sent START s s' = []"
| "sent (OVF dr sr pn) s s' =
     (if bit (USICR s) USIOIE \<and> ack s \<noteq> 0 \<and> status s' = 4 then [USIDR s'] else [])"

text \<open>A run over a list of events: the bytes sent, in order, and the last state.\<close>

definition prepend :: "8 word list \<Rightarrow> fault + (8 word list \<times> machine) \<Rightarrow> fault + (8 word list \<times> machine)" where
  "prepend bs r = (case r of Inl f \<Rightarrow> Inl f | Inr (cs, t) \<Rightarrow> Inr (bs @ cs, t))"

fun transcript :: "pins \<Rightarrow> event list \<Rightarrow> machine \<Rightarrow> fault + (8 word list \<times> machine)" where
  "transcript p [] s = Inr ([], s)"
| "transcript p (e # es) s =
     (case deliver p e s of
        Inl f \<Rightarrow> Inl f
      | Inr s' \<Rightarrow> prepend (sent e s s') (transcript p es s'))"

text \<open>What a run shows: the bytes sent and one component of the last state.\<close>

definition observe ::
    "(machine \<Rightarrow> 'a) \<Rightarrow> fault + (8 word list \<times> machine) \<Rightarrow> fault + (8 word list \<times> 'a)" where
  "observe f r = (case r of Inl e \<Rightarrow> Inl e | Inr (bs, t) \<Rightarrow> Inr (bs, f t))"

section \<open>Transactions, as sequences of events\<close>

text \<open>
  The master's reply to a byte it has read, as the overflow handler sees it on the pins: the
  first reading gives the level of the data line (low is ACK), the next ones are those
  of the wait for the clock line to go low, which has to end.
\<close>

definition master_ack :: "pins \<Rightarrow> 8 word list \<Rightarrow> bool" where
  "master_ack p pn =
     (case pn of
        [] \<Rightarrow> False
      | x # xs \<Rightarrow> \<not> bit x (SDAP p) \<and>
          (case loop_until_bit_is_clear (SCLP p) xs of Inl _ \<Rightarrow> False | Inr _ \<Rightarrow> True))"

definition master_nack :: "pins \<Rightarrow> 8 word list \<Rightarrow> bool" where
  "master_nack p pn =
     (case pn of
        [] \<Rightarrow> False
      | x # xs \<Rightarrow> bit x (SDAP p) \<and>
          (case loop_until_bit_is_clear (SCLP p) xs of Inl _ \<Rightarrow> False | Inr _ \<Rightarrow> True))"

text \<open>
  Every byte on the bus takes two overflows: one after its eight bits, one after the
  ACK bit. \<open>data_slots ds evs\<close>: the events \<open>evs\<close> carry the data bytes \<open>ds\<close> of a write,
  and no stop condition is flagged at an ACK bit.
\<close>

fun data_slots :: "8 word list \<Rightarrow> event list \<Rightarrow> bool" where
  "data_slots [] evs = (evs = [])"
| "data_slots (d # ds) (OVF dr sr pn # OVF dr' sr' pn' # evs) =
     (dr = d \<and> \<not> bit sr' USIPF \<and> data_slots ds evs)"
| "data_slots (d # ds) evs = False"

text \<open>An address byte for \<open>a\<close> with R/W = 0, the pointer byte \<open>P\<close>, the data bytes \<open>ds\<close>.\<close>

fun write_frame :: "8 word \<Rightarrow> 8 word \<Rightarrow> 8 word list \<Rightarrow> event list \<Rightarrow> bool" where
  "write_frame a P ds (OVF d sr pn # OVF d1 sr1 pn1 # OVF d2 sr2 pn2 # OVF d3 sr3 pn3 # evs) =
     (drop_bit 1 d = a \<and> d AND 1 = 0 \<and> d2 = P \<and> data_slots ds evs)"
| "write_frame a P ds evs = False"

text \<open>\<open>n\<close> bytes clocked out, each answered by the master with ACK.\<close>

fun read_slots :: "pins \<Rightarrow> nat \<Rightarrow> event list \<Rightarrow> bool" where
  "read_slots p 0 evs = (evs = [])"
| "read_slots p (Suc n) (OVF dr sr pn # OVF dr' sr' pn' # evs) =
     (master_ack p pn' \<and> read_slots p n evs)"
| "read_slots p (Suc n) evs = False"

text \<open>An address byte for \<open>a\<close> with R/W = 1, then \<open>n\<close> bytes that the master ACKs.\<close>

fun read_frame :: "pins \<Rightarrow> 8 word \<Rightarrow> nat \<Rightarrow> event list \<Rightarrow> bool" where
  "read_frame p a n (OVF d sr pn # OVF d1 sr1 pn1 # evs) =
     (drop_bit 1 d = a \<and> d AND 1 = 1 \<and> read_slots p n evs)"
| "read_frame p a n evs = False"

text \<open>One more byte clocked out, answered with NACK.\<close>

fun nack_slot :: "pins \<Rightarrow> event list \<Rightarrow> bool" where
  "nack_slot p [OVF dr sr pn, OVF dr' sr' pn'] = master_nack p pn'"
| "nack_slot p evs = False"

text \<open>
  The registers after the bytes \<open>ds\<close> have been stored from pointer \<open>q\<close> on, the pointer
  stepping as a byte does; \<open>in_range q k n\<close>: the \<open>k\<close> pointer values from \<open>q\<close> on are
  inside an array of \<open>n\<close> bytes; \<open>window r q k\<close>: the \<open>k\<close> registers from pointer \<open>q\<close> on.
\<close>

fun stored :: "8 word \<Rightarrow> 8 word list \<Rightarrow> 8 word list \<Rightarrow> 8 word list" where
  "stored q [] r = r"
| "stored q (d # ds) r = stored (q + 1) ds (r[unat q := d])"

fun in_range :: "8 word \<Rightarrow> nat \<Rightarrow> nat \<Rightarrow> bool" where
  "in_range q 0 n = True"
| "in_range q (Suc k) n = (unat q < n \<and> in_range (q + 1) k n)"

fun window :: "8 word list \<Rightarrow> 8 word \<Rightarrow> nat \<Rightarrow> 8 word list" where
  "window r q 0 = []"
| "window r q (Suc k) = r ! unat q # window r (q + 1) k"

text \<open>The ATtiny85 has SDA on PB0 and SCL on PB2: the pins of the examples.\<close>

definition attiny85 :: pins where
  "attiny85 = \<lparr>SDAP = 0, SCLP = 2\<rparr>"

text \<open>
  The slave of the examples: initialised at address 0x20 and addressed by a first start
  condition, with 256 registers, register \<open>i\<close> holding \<open>i\<close>.
\<close>

definition example_slave :: machine where
  "example_slave =
     USI_START_vect attiny85
       ((usi_i2c_slave attiny85 0x20 (power_on 256))\<lparr>registers := map of_nat [0..<256]\<rparr>)"

section \<open>Auxiliary facts\<close>

lemmas ovf_defs = USI_OVF_vect_def ovf_ack_mode_def ovf_after_ack_def ovf_master_reply_def
  ovf_byte_mode_def ovf_byte_def Let_def

lemma mask_FF: "(0xFF :: 'a::len word) = mask 8" "(0xFF :: int) = mask 8"
  by (simp_all add: mask_eq_exp_minus_1)

lemma mask_FF00:
  "(0xFF00 :: 'a::len word) = push_bit 8 (mask 8)" "(0xFF00 :: int) = push_bit 8 (mask 8)"
  by (simp_all add: mask_eq_exp_minus_1 push_bit_eq_mult)

lemma mask_FF0000:
  "(0xFF0000 :: 'a::len word) = push_bit 16 (mask 8)" "(0xFF0000 :: int) = push_bit 16 (mask 8)"
  by (simp_all add: mask_eq_exp_minus_1 push_bit_eq_mult)

lemma mask_FF000000:
  "(0xFF000000 :: 'a::len word) = push_bit 24 (mask 8)"
  "(0xFF000000 :: int) = push_bit 24 (mask 8)"
  by (simp_all add: mask_eq_exp_minus_1 push_bit_eq_mult)

lemma swap_s16_word:
  "(word_of_int (swap_s16 (sint (w::16 word))) :: 16 word) =
     push_bit 8 (w AND 0xFF) OR drop_bit 8 (w AND 0xFF00)"
  unfolding swap_s16_def Let_def mask_FF mask_FF00
  by (rule bit_word_eqI) (auto simp add: bit_simps)

lemma swap_s32_word:
  "(word_of_int (swap_s32 (sint (w::32 word))) :: 32 word) =
     push_bit 24 (w AND 0x000000FF) OR drop_bit 24 (w AND 0xFF000000) OR
     push_bit 8 (w AND 0x0000FF00) OR drop_bit 8 (w AND 0x00FF0000)"
  unfolding swap_s32_def Let_def mask_FF mask_FF00 mask_FF0000 mask_FF000000
  by (rule bit_word_eqI) (auto simp add: bit_simps)

subsection \<open>What a 16-bit save leaves, and what the read gives back\<close>

text \<open>
  For every value and every index with both bytes inside the array, the 16-bit writer
  leaves the most significant byte at the index and the least significant one after it;
  the 16-bit reader then returns the value with its two bytes exchanged. The 8-bit
  accessors give back what was written.
\<close>

lemma store_two:
  "a + 2 \<le> length m \<Longrightarrow> store_bytes m a [x, y] = Inr (m[a := x, Suc a := y])"
  by (simp add: store_bytes_def upd_conv_take_nth_drop take_Suc_conv_app_nth
      drop_update_cancel nth_list_update)

lemma load_two:
  "a + 2 \<le> length m \<Longrightarrow> load_bytes m a 2 = Inr [m ! a, m ! Suc a]"
  apply (simp add: load_bytes_def)
  apply (rule nth_equalityI)
   apply simp
  apply (auto simp add: nth_Cons split: nat.splits)
  done

lemma save_u16_then_read:
  assumes "unat dir + 2 \<le> length (registers s)"
  shows "\<exists>t. usi_i2c_save_registers_u16 v dir s = Inr t \<and>
     registers t = (registers s)[unat dir := ucast (drop_bit 8 v), Suc (unat dir) := ucast v] \<and>
     usi_i2c_read_registers_u16 dir t = Inr (push_bit 8 (v AND 0xFF) OR drop_bit 8 (v AND 0xFF00))"
proof -
  let ?w = "push_bit 8 (v AND 0xFF) OR drop_bit 8 (v AND 0xFF00)"
  let ?m = "(registers s)[unat dir := ucast (drop_bit 8 v), Suc (unat dir) := ucast v]"
  have b: "ucast ?w = (ucast (drop_bit 8 v) :: 8 word)" "ucast (drop_bit 8 ?w) = (ucast v :: 8 word)"
    unfolding mask_FF mask_FF00
    by (rule bit_word_eqI, auto simp add: bit_simps)+
  have c: "(ucast (ucast (drop_bit 8 v) :: 8 word) :: 16 word) OR
      push_bit 8 (ucast (ucast v :: 8 word) OR push_bit 8 0) = ?w"
    unfolding mask_FF mask_FF00
    by (rule bit_word_eqI) (auto simp add: bit_simps)
  have save: "usi_i2c_save_registers_u16 v dir s = Inr (s\<lparr>registers := ?m\<rparr>)"
    by (simp only: usi_i2c_save_registers_u16_def poke_def bytes_of_16_def b
        store_two [OF assms] sum.case)
  have "unat dir + 2 \<le> length (registers (s\<lparr>registers := ?m\<rparr>))"
    using assms by simp
  from load_two [OF this]
  have "load_bytes ?m (unat dir) 2 = Inr [ucast (drop_bit 8 v), ucast v]"
    using assms by simp
  then have "usi_i2c_read_registers_u16 dir (s\<lparr>registers := ?m\<rparr>) = Inr ?w"
    using c by (simp add: usi_i2c_read_registers_u16_def peek_def del: push_bit_and)
  with save show ?thesis
    by (intro exI [of _ "s\<lparr>registers := ?m\<rparr>"]) simp
qed

lemma save_u8_then_read:
  assumes "unat dir < length (registers s)"
  shows "\<exists>t. usi_i2c_save_registers_u8 v dir s = Inr t \<and> usi_i2c_read_registers_u8 dir t = Inr v"
  using assms
  by (simp add: usi_i2c_save_registers_u8_def usi_i2c_read_registers_u8_def poke_def peek_def
      store_bytes_def load_bytes_def nth_append take_Suc_conv_app_nth)

subsection \<open>Runs of events\<close>

lemma prepend_Nil [simp]: "prepend [] r = r"
  by (simp add: prepend_def split: sum.splits)

lemma prepend_Inr [simp]: "prepend bs (Inr (cs, t)) = Inr (bs @ cs, t)"
  by (simp add: prepend_def)

lemma bit_USICR_OIE [simp]: "bit (w OR bitv USIOIE) USIOIE" "bit (w OR bitv USIOIE) USISIE = bit w USISIE"
  "\<not> bit (w AND NOT (bitv USIOIE)) USIOIE"  "bit (w AND NOT (bitv USIOIE)) USISIE = bit w USISIE"
  by (simp_all add: bitv_def USIOIE_def USISIE_def bit_simps)

lemma slot_addr_w:
  assumes "status s = 0" "ack s = 0" "bit (USICR s) USIOIE"
    and "drop_bit 1 d = direction s" "d AND 1 = 0"
  shows "\<exists>t. transcript p (OVF d sr pn # OVF d' sr' pn' # evs) s = transcript p evs t
     \<and> status t = 1 \<and> ack t = 0 \<and> rdir t = rdir s \<and> registers t = registers s
     \<and> direction t = direction s \<and> USICR t = USICR s"
  using assms 
  apply (simp add: ovf_defs)
  apply (rule exI, rule conjI, rule refl)
  apply simp
  done

lemma slot_pointer:
  assumes "status s = 1" "ack s = 0" "bit (USICR s) USIOIE"
  shows "\<exists>t. transcript p (OVF d sr pn # OVF d' sr' pn' # evs) s = transcript p evs t
     \<and> status t = 2 \<and> ack t = 0 \<and> rdir t = d \<and> registers t = registers s
     \<and> direction t = direction s \<and> USICR t = USICR s"
  using assms 
  apply (simp add: ovf_defs)
  apply (rule exI, rule conjI, rule refl)
  apply simp
  done

lemma slot_data:
  assumes "status s = 2" "ack s = 0" "bit (USICR s) USIOIE"
    and "\<not> bit sr' USIPF" "unat (rdir s) < length (registers s)"
  shows "\<exists>t. transcript p (OVF d sr pn # OVF d' sr' pn' # evs) s = transcript p evs t
     \<and> status t = 2 \<and> ack t = 0 \<and> rdir t = rdir s + 1 \<and> registers t = (registers s)[unat (rdir s) := d]
     \<and> direction t = direction s \<and> USICR t = USICR s"
  using assms 
  apply (simp add: ovf_defs)
  apply (rule exI, rule conjI, rule refl)
  apply simp
  done

lemma data_slots_run:
  "data_slots ds evs \<Longrightarrow> status s = 2 \<Longrightarrow> ack s = 0 \<Longrightarrow> bit (USICR s) USIOIE \<Longrightarrow>
   in_range (rdir s) (length ds) (length (registers s)) \<Longrightarrow>
   \<exists>t. transcript p (evs @ rest) s = transcript p rest t
     \<and> status t = 2 \<and> ack t = 0 \<and> rdir t = rdir s + of_nat (length ds)
     \<and> registers t = stored (rdir s) ds (registers s)
     \<and> direction t = direction s \<and> USICR t = USICR s"
proof (induction ds evs arbitrary: s rule: data_slots.induct)
  case (1 evs)
  then show ?case by (intro exI [of _ s]) simp
next
  case (2 d ds dr sr pn dr' sr' pn' evs)
  from "2.prems" have shape: "dr = d" "\<not> bit sr' USIPF" "data_slots ds evs"
    and rng: "unat (rdir s) < length (registers s)"
       "in_range (rdir s + 1) (length ds) (length (registers s))"
    by simp_all
  from slot_data [OF "2.prems"(2,3,4) shape(2) rng(1), of p dr sr pn dr' pn' "evs @ rest"]
  obtain t where t: "transcript p (OVF dr sr pn # OVF dr' sr' pn' # evs @ rest) s = transcript p (evs @ rest) t"
    "status t = 2" "ack t = 0" "rdir t = rdir s + 1" "registers t = (registers s)[unat (rdir s) := dr]"
    "direction t = direction s" "USICR t = USICR s"
    by blast
  have "in_range (rdir t) (length ds) (length (registers t))"
    using rng t by simp
  from "2.IH" [OF shape(3) t(2,3) _ this] "2.prems"(4) t(7)
  obtain u where u: "transcript p (evs @ rest) t = transcript p rest u"
    "status u = 2" "ack u = 0" "rdir u = rdir t + of_nat (length ds)"
    "registers u = stored (rdir t) ds (registers t)"
    "direction u = direction t" "USICR u = USICR t"
    by auto
  show ?case
    using t u shape by (intro exI [of _ u]) (simp add: algebra_simps)
qed simp_all


lemma prepend_append: "prepend (as @ bs) r = prepend as (prepend bs r)"
  by (simp add: prepend_def split: sum.splits prod.splits)

lemma slot_addr_r:
  assumes "status s = 0" "ack s = 0" "bit (USICR s) USIOIE"
    and "drop_bit 1 d = direction s" "d AND 1 = 1" "unat (rdir s) < length (registers s)"
  shows "\<exists>t. transcript p (OVF d sr pn # OVF d' sr' pn' # evs) s =
       prepend [registers s ! unat (rdir s)] (transcript p evs t)
     \<and> status t = 4 \<and> ack t = 0 \<and> rdir t = rdir s \<and> registers t = registers s
     \<and> direction t = direction s \<and> USICR t = USICR s"
  using assms 
  apply (simp add: ovf_defs)
  apply (rule exI, rule conjI, rule refl)
  apply simp
  done

lemma master_ackD:
  "master_ack p pn \<Longrightarrow> \<exists>x xs r. pn = x # xs \<and> \<not> bit x (SDAP p) \<and>
     loop_until_bit_is_clear (SCLP p) xs = Inr r"
  by (auto simp add: master_ack_def split: list.splits sum.splits)

lemma master_nackD:
  "master_nack p pn \<Longrightarrow> \<exists>x xs r. pn = x # xs \<and> bit x (SDAP p) \<and>
     loop_until_bit_is_clear (SCLP p) xs = Inr r"
  by (auto simp add: master_nack_def split: list.splits sum.splits)

lemma slot_read_ack:
  assumes "status s = 4" "ack s = 0" "bit (USICR s) USIOIE"
    and "master_ack p pn'" "unat (rdir s + 1) < length (registers s)"
  shows "\<exists>t. transcript p (OVF d sr pn # OVF d' sr' pn' # evs) s =
       prepend [registers s ! unat (rdir s + 1)] (transcript p evs t)
     \<and> status t = 4 \<and> ack t = 0 \<and> rdir t = rdir s + 1 \<and> registers t = registers s
     \<and> direction t = direction s \<and> USICR t = USICR s"
proof -
  from master_ackD [OF assms(4)] obtain x xs r where
    pn: "pn' = x # xs" "\<not> bit x (SDAP p)" "loop_until_bit_is_clear (SCLP p) xs = Inr r"
    by blast
  show ?thesis
    using assms(1,2,3,5) pn
    apply (simp add: ovf_defs)
    apply (rule exI, rule conjI, rule refl)
    apply simp
    done
qed

lemma slot_read_nack:
  assumes "status s = 4" "ack s = 0" "bit (USICR s) USIOIE"
    and "master_nack p pn'"
  shows "\<exists>t. transcript p (OVF d sr pn # OVF d' sr' pn' # evs) s = transcript p evs t
     \<and> status t = 0 \<and> ack t = 0 \<and> rdir t = 0 \<and> registers t = registers s
     \<and> direction t = direction s \<and> USICR t = USICR s AND NOT (bitv USIOIE)"
proof -
  from master_nackD [OF assms(4)] obtain x xs r where
    pn: "pn' = x # xs" "bit x (SDAP p)" "loop_until_bit_is_clear (SCLP p) xs = Inr r"
    by blast
  show ?thesis
    using assms(1,2,3) pn
    apply (simp add: ovf_defs)
    apply (rule exI, rule conjI, rule refl)
    apply simp
    done
qed

lemma read_slots_run:
  "read_slots p n evs \<Longrightarrow> status s = 4 \<Longrightarrow> ack s = 0 \<Longrightarrow> bit (USICR s) USIOIE \<Longrightarrow>
   in_range (rdir s + 1) n (length (registers s)) \<Longrightarrow>
   \<exists>t. transcript p (evs @ rest) s =
         prepend (window (registers s) (rdir s + 1) n) (transcript p rest t)
     \<and> status t = 4 \<and> ack t = 0 \<and> rdir t = rdir s + of_nat n
     \<and> registers t = registers s
     \<and> direction t = direction s \<and> USICR t = USICR s"
proof (induction p n evs arbitrary: s rule: read_slots.induct)
  case (1 p evs)
  then show ?case by (intro exI [of _ s]) simp
next
  case (2 p n dr sr pn dr' sr' pn' evs)
  from "2.prems" have shape: "master_ack p pn'" "read_slots p n evs"
    and rng: "unat (rdir s + 1) < length (registers s)"
       "in_range (rdir s + 1 + 1) n (length (registers s))"
    by simp_all
  from slot_read_ack [OF "2.prems"(2,3,4) shape(1) rng(1), of dr sr pn dr' sr' "evs @ rest"]
  obtain t where t: "transcript p (OVF dr sr pn # OVF dr' sr' pn' # evs @ rest) s =
       prepend [registers s ! unat (rdir s + 1)] (transcript p (evs @ rest) t)"
    "status t = 4" "ack t = 0" "rdir t = rdir s + 1" "registers t = registers s"
    "direction t = direction s" "USICR t = USICR s"
    by blast
  have "in_range (rdir t + 1) n (length (registers t))"
    using rng t by simp
  from "2.IH" [OF shape(2) t(2,3) _ this] "2.prems"(4) t(7)
  obtain u where u: "transcript p (evs @ rest) t =
      prepend (window (registers t) (rdir t + 1) n) (transcript p rest u)"
    "status u = 4" "ack u = 0" "rdir u = rdir t + of_nat n"
    "registers u = registers t"
    "direction u = direction t" "USICR u = USICR t"
    by auto
  have "prepend [registers s ! unat (rdir s + 1)]
          (prepend (window (registers s) (rdir s + 1 + 1) n) (transcript p rest u)) =
        prepend (window (registers s) (rdir s + 1) (Suc n)) (transcript p rest u)"
    by (simp add: prepend_append [symmetric])
  then show ?case
    using t u by (intro exI [of _ u]) (simp add: algebra_simps)
qed simp_all


lemma start_step:
  assumes "status s = 0 \<or> status s = 2 \<and> bit (USICR s) USIOIE" "bit (USICR s) USISIE"
  shows "\<exists>t. transcript p (START # evs) s = transcript p evs t
     \<and> status t = 0 \<and> ack t = ack s \<and> rdir t = rdir s \<and> registers t = registers s
     \<and> direction t = direction s \<and> bit (USICR t) USIOIE \<and> bit (USICR t) USISIE"
  using assms
  by (intro exI [of _ "USI_START_vect p s"]) (auto simp add: USI_START_vect_def Let_def)

lemma length_stored [simp]: "length (stored q ds r) = length r"
  by (induction ds arbitrary: q r) simp_all




lemma write_frame_run:
  assumes "write_frame (direction s) P ds evs" "status s = 0" "ack s = 0"
    and "bit (USICR s) USIOIE" "in_range P (length ds) (length (registers s))"
  shows "\<exists>t. transcript p (evs @ rest) s = transcript p rest t
     \<and> status t = 2 \<and> ack t = 0 \<and> rdir t = P + of_nat (length ds)
     \<and> registers t = stored P ds (registers s)
     \<and> direction t = direction s \<and> USICR t = USICR s"
proof -
  from assms(1) obtain d sr pn d1 sr1 pn1 sr2 pn2 d3 sr3 pn3 devs where
    evs: "evs = OVF d sr pn # OVF d1 sr1 pn1 # OVF P sr2 pn2 # OVF d3 sr3 pn3 # devs"
    and shape: "drop_bit 1 d = direction s" "d AND 1 = 0" "data_slots ds devs"
    by (auto elim!: write_frame.elims)
  from slot_addr_w [OF assms(2,3,4) shape(1,2)]
  obtain t1 where t1:
    "transcript p (OVF d sr pn # OVF d1 sr1 pn1 #
        OVF P sr2 pn2 # OVF d3 sr3 pn3 # devs @ rest) s =
     transcript p (OVF P sr2 pn2 # OVF d3 sr3 pn3 # devs @ rest) t1"
    "status t1 = 1" "ack t1 = 0" "rdir t1 = rdir s" "registers t1 = registers s"
    "direction t1 = direction s" "USICR t1 = USICR s"
    by blast
  from t1(7) assms(4) have "bit (USICR t1) USIOIE" by simp
  from slot_pointer [OF t1(2,3) this]
  obtain t2 where t2:
    "transcript p (OVF P sr2 pn2 # OVF d3 sr3 pn3 # devs @ rest) t1 =
     transcript p (devs @ rest) t2"
    "status t2 = 2" "ack t2 = 0" "rdir t2 = P" "registers t2 = registers t1"
    "direction t2 = direction t1" "USICR t2 = USICR t1"
    by blast
  have "bit (USICR t2) USIOIE" "in_range (rdir t2) (length ds) (length (registers t2))"
    using t1 t2 assms(4,5) by simp_all
  from data_slots_run [OF shape(3) t2(2,3) this]
  obtain t where t: "transcript p (devs @ rest) t2 = transcript p rest t"
    "status t = 2" "ack t = 0" "rdir t = rdir t2 + of_nat (length ds)"
    "registers t = stored (rdir t2) ds (registers t2)"
    "direction t = direction t2" "USICR t = USICR t2"
    by blast
  have "transcript p (evs @ rest) s = transcript p rest t"
    by (simp only: evs append_Cons t1(1) t2(1) t(1))
  then show ?thesis
    by (intro exI [of _ t]) (simp add: t1(2-) t2(2-) t(2-))
qed

lemma read_frame_run:
  assumes "read_frame p (direction s) n evs" "status s = 0" "ack s = 0"
    and "bit (USICR s) USIOIE" "in_range (rdir s) (Suc n) (length (registers s))"
  shows "\<exists>t. transcript p (evs @ rest) s =
       prepend (window (registers s) (rdir s) (Suc n)) (transcript p rest t)
     \<and> status t = 4 \<and> ack t = 0 \<and> rdir t = rdir s + of_nat n
     \<and> registers t = registers s
     \<and> direction t = direction s \<and> USICR t = USICR s"
proof -
  from assms(1) obtain d sr pn d1 sr1 pn1 revs where
    evs: "evs = OVF d sr pn # OVF d1 sr1 pn1 # revs"
    and shape: "drop_bit 1 d = direction s" "d AND 1 = 1" "read_slots p n revs"
    by (auto elim!: read_frame.elims)
  from assms(5) have rng: "unat (rdir s) < length (registers s)"
    "in_range (rdir s + 1) n (length (registers s))"
    by simp_all
  from slot_addr_r [OF assms(2,3,4) shape(1,2) rng(1)]
  obtain t1 where t1:
    "transcript p (OVF d sr pn # OVF d1 sr1 pn1 # revs @ rest) s =
     prepend [registers s ! unat (rdir s)] (transcript p (revs @ rest) t1)"
    "status t1 = 4" "ack t1 = 0" "rdir t1 = rdir s" "registers t1 = registers s"
    "direction t1 = direction s" "USICR t1 = USICR s"
    by blast
  have "bit (USICR t1) USIOIE" "in_range (rdir t1 + 1) n (length (registers t1))"
    using t1 assms(4) rng by simp_all
  from read_slots_run [OF shape(3) t1(2,3) this]
  obtain t where t: "transcript p (revs @ rest) t1 =
      prepend (window (registers t1) (rdir t1 + 1) n) (transcript p rest t)"
    "status t = 4" "ack t = 0" "rdir t = rdir t1 + of_nat n"
    "registers t = registers t1"
    "direction t = direction t1" "USICR t = USICR t1"
    by blast
  have "prepend [registers s ! unat (rdir s)]
          (prepend (window (registers s) (rdir s + 1) n) (transcript p rest t)) =
        prepend (window (registers s) (rdir s) (Suc n)) (transcript p rest t)"
    by (simp add: prepend_append [symmetric])
  then have "transcript p (evs @ rest) s =
      prepend (window (registers s) (rdir s) (Suc n)) (transcript p rest t)"
    by (simp only: evs append_Cons t1 t(1))
  then show ?thesis
    by (intro exI [of _ t]) (simp add: t1(2-) t(2-))
qed

lemma nack_slot_run:
  assumes "nack_slot p evs" "status s = 4" "ack s = 0" "bit (USICR s) USIOIE"
  shows "\<exists>t. transcript p (evs @ rest) s = transcript p rest t
     \<and> status t = 0 \<and> ack t = 0 \<and> rdir t = 0 \<and> registers t = registers s
     \<and> direction t = direction s \<and> USICR t = USICR s AND NOT (bitv USIOIE)"
proof -
  from assms(1) obtain dr sr pn dr' sr' pn' where
    evs: "evs = [OVF dr sr pn, OVF dr' sr' pn']" and nack: "master_nack p pn'"
    by (auto elim!: nack_slot.elims)
  from slot_read_nack [OF assms(2,3,4) nack, of dr sr pn dr' sr' rest]
  show ?thesis by (simp add: evs)
qed

lemma length_window [simp]: "length (window r q k) = k"
  by (induction k arbitrary: q) simp_all

section \<open>The typed accessors\<close>

text \<open>
  C10. For every index and every value, a signed writer stores the bytes that the unsigned
  writer of the same width stores for the same bit pattern (and faults on the same
  indices): the results are equal, for 8, 16 and 32 bits.
\<close>

theorem signed_save_is_unsigned_save:
  "usi_i2c_save_registers_s8 d8 dir s = usi_i2c_save_registers_u8 d8 dir s \<and>
   usi_i2c_save_registers_s16 d16 dir s = usi_i2c_save_registers_u16 d16 dir s \<and>
   usi_i2c_save_registers_s32 d32 dir s = usi_i2c_save_registers_u32 d32 dir s"
  by (simp add: usi_i2c_save_registers_s8_def usi_i2c_save_registers_u8_def
      usi_i2c_save_registers_s16_def usi_i2c_save_registers_u16_def
      usi_i2c_save_registers_s32_def usi_i2c_save_registers_u32_def
      swap_s16_word swap_s32_word)

text \<open>
  C1. Writing the 16-bit value 0x1234 at index 5 leaves the bytes 0x12, 0x34 at indices
  5 and 6, the most significant first. The reader of the same width does not swap the
  bytes back: reading index 5 gives 0x3412, not the value written.
\<close>

theorem u16_read_after_save:
  "usi_i2c_save_registers_u16 0x1234 5 (power_on 8) =
     Inr ((power_on 8)\<lparr>registers := [0, 0, 0, 0, 0, 0x12, 0x34, 0]\<rparr>) \<and>
   usi_i2c_read_registers_u16 5 ((power_on 8)\<lparr>registers := [0, 0, 0, 0, 0, 0x12, 0x34, 0]\<rparr>) =
     Inr 0x3412"
  by code_simp

section \<open>The start handler\<close>

text \<open>
  C6. In every state, the handler of the start condition leaves the register pointer
  \<^verbatim>\<open>rdir\<close> as it was (and the registers too).
\<close>

theorem start_keeps_pointer:
  "rdir (USI_START_vect p s) = rdir s \<and> registers (USI_START_vect p s) = registers s"
  by (simp add: USI_START_vect_def Let_def)

text \<open>
  C5, as stated, fails: after an address byte for a write has been acknowledged
  (\<^verbatim>\<open>status\<close> 1), a start condition leaves \<^verbatim>\<open>status\<close> at 1.
\<close>

theorem start_in_status_1_counterexample:
  "observe status
     (transcript attiny85 [START, OVF 0x40 0 [], OVF 0 0 [], START]
        (usi_i2c_slave attiny85 0x20 (power_on 8))) = Inr ([], 1)"
  by code_simp

text \<open>
  C5, amended. A start condition with \<^verbatim>\<open>status\<close> 2 sets \<^verbatim>\<open>status\<close> to 0 and touches
  neither the pointer, nor the data register, nor the interrupt enables. Any other start
  condition leaves \<^verbatim>\<open>status\<close> as it is, enables the overflow interrupt and clears the
  data register. The pointer and the ACK flag are never changed.
\<close>

theorem start_effect:
  "status (USI_START_vect p s) = (if status s = 2 then 0 else status s) \<and>
   rdir (USI_START_vect p s) = rdir s \<and>
   ack (USI_START_vect p s) = ack s \<and>
   USICR (USI_START_vect p s) = (if status s = 2 then USICR s else USICR s OR bitv USIOIE) \<and>
   USIDR (USI_START_vect p s) = (if status s = 2 then USIDR s else 0)"
  by (simp add: USI_START_vect_def Let_def)

theorem start_effect_witness:
  "status (USI_START_vect attiny85 ((power_on 8)\<lparr>status := 2, rdir := 4\<rparr>)) = 0 \<and>
   rdir (USI_START_vect attiny85 ((power_on 8)\<lparr>status := 2, rdir := 4\<rparr>)) = 4 \<and>
   status (USI_START_vect attiny85 ((power_on 8)\<lparr>status := 4, rdir := 4\<rparr>)) = 4"
  using start_effect [of attiny85 "(power_on 8)\<lparr>status := 2, rdir := 4\<rparr>"]
    start_effect [of attiny85 "(power_on 8)\<lparr>status := 4, rdir := 4\<rparr>"]
  by (simp add: power_on_def)

section \<open>The overflow handler, one run\<close>

text \<open>
  C7. In the byte mode with \<^verbatim>\<open>status\<close> 0, when the seven address bits received differ
  from \<^verbatim>\<open>i2c_slave.direction\<close>, the overflow handler returns and leaves \<^verbatim>\<open>status\<close>, the
  pointer, the ACK flag, the registers and the slave address as they were; it does not
  change the direction bit of the data line (no ACK is driven), the port register or the
  interrupt enables. The two lines are on different pins.
\<close>

theorem address_mismatch_frame:
  assumes "ack s = 0" "status s = 0" "drop_bit 1 (USIDR s) \<noteq> direction s"
    and "SDAP p \<noteq> SCLP p"
  shows "\<exists>t. USI_OVF_vect p pn s = Inr t \<and> status t = status s \<and> rdir t = rdir s \<and>
     ack t = ack s \<and> registers t = registers s \<and> direction t = direction s \<and>
     bit (I2CD t) (SDAP p) = bit (I2CD s) (SDAP p) \<and> I2CP t = I2CP s \<and> USICR t = USICR s"
  using assms by (auto simp add: ovf_defs bitv_def bit_simps dest: bit_imp_le_length)

theorem address_mismatch_frame_witness:
  "\<exists>t. USI_OVF_vect attiny85 []
          ((usi_i2c_slave attiny85 0x20 (power_on 8))\<lparr>USIDR := 0x42\<rparr>) = Inr t \<and>
     status t = 0 \<and> rdir t = 0 \<and> ack t = 0 \<and> registers t = replicate 8 0 \<and>
     \<not> bit (I2CD t) 0"
  using address_mismatch_frame
    [of "(usi_i2c_slave attiny85 0x20 (power_on 8))\<lparr>USIDR := 0x42\<rparr>" attiny85 "[]"]
  by (auto simp add: usi_i2c_slave_def power_on_def attiny85_def Let_def bitv_def)

text \<open>
  C8, as stated, fails: not every write that a stop condition ends leaves the pointer
  at 0. The handler looks at the stop flag \<^verbatim>\<open>USIPF\<close> in one place only, the ACK mode
  with \<^verbatim>\<open>status\<close> 3. After a write of pointer byte 3 and data byte 0xAB whose stop
  condition comes once the handler has run for the last ACK bit (the flag is set at the
  next overflow, where it is not looked at), the read that follows sends register 4 and
  the pointer is 4. After a write of the pointer byte 3 alone, with the flag set at the
  ACK bit of that byte (\<^verbatim>\<open>status\<close> 2), the read sends register 3 and the pointer is 3.
\<close>

theorem stop_after_last_ack_counterexample:
  "observe rdir
     (transcript attiny85
        [OVF 0x40 0 [], OVF 0 0 [], OVF 0x03 0 [], OVF 0 0 [], OVF 0xAB 0 [], OVF 0 0 [],
         START, OVF 0x41 0x20 [], OVF 0 0 []]
        example_slave) = Inr ([4], 4) \<and>
   observe rdir
     (transcript attiny85
        [OVF 0x40 0 [], OVF 0 0 [], OVF 0x03 0 [], OVF 0 0x20 [],
         START, OVF 0x41 0 [], OVF 0 0 []]
        example_slave) = Inr ([3], 3)"
  by code_simp

text \<open>
  C8, amended. When the overflow handler runs in the ACK mode with \<^verbatim>\<open>status\<close> 3 and the
  stop flag \<^verbatim>\<open>USIPF\<close> set, it returns with the pointer at 0, \<^verbatim>\<open>status\<close> 0, the ACK flag
  cleared and the overflow interrupt disabled, so that a further overflow is not handled.
  A read that follows such a run (start condition, own address with R/W = 1) sends
  register 0 first.
\<close>

theorem stop_flag_resets_pointer:
  assumes "ack s \<noteq> 0" "status s = 3" "bit (USISR s) USIPF"
  shows "\<exists>t. USI_OVF_vect p pn s = Inr t \<and> rdir t = 0 \<and> status t = 0 \<and> ack t = 0 \<and>
     \<not> bit (USICR t) USIOIE \<and> registers t = registers s \<and>
     deliver p (OVF dr sr pn') t = Inr (t\<lparr>USIDR := dr, USISR := sr\<rparr>) \<and>
     (bit (USICR s) USISIE \<longrightarrow> drop_bit 1 d = direction s \<longrightarrow> d AND 1 = 1 \<longrightarrow>
      registers s \<noteq> [] \<longrightarrow>
      (\<exists>u. transcript p [START, OVF d sr1 pn1, OVF d2 sr2 pn2] t = Inr ([registers s ! 0], u)))"
proof -
  define t where "t = s\<lparr>rdir := 0, status := 0, USICR := USICR s AND NOT (bitv USIOIE),
     ack := 0, USISR := NOT USICNT,
     I2CD := ((I2CD s OR bitv (SCLP p)) AND NOT (bitv (SDAP p))) AND NOT (bitv (SCLP p))\<rparr>"
  have run: "USI_OVF_vect p pn s = Inr t"
    using assms by (simp add: ovf_defs t_def)
  have t: "rdir t = 0" "status t = 0" "ack t = 0" "\<not> bit (USICR t) USIOIE"
    "registers t = registers s" "direction t = direction s"
    "bit (USICR t) USISIE = bit (USICR s) USISIE"
    by (simp_all add: t_def)
  have later: "\<exists>u. transcript p [START, OVF d sr1 pn1, OVF d2 sr2 pn2] t = Inr ([registers s ! 0], u)"
    if h: "bit (USICR s) USISIE" "drop_bit 1 d = direction s" "d AND 1 = 1" "registers s \<noteq> []"
  proof -
    from start_step [of t, OF _ _ ] t h(1)
    obtain t1 where t1: "transcript p (START # [OVF d sr1 pn1, OVF d2 sr2 pn2]) t =
        transcript p [OVF d sr1 pn1, OVF d2 sr2 pn2] t1"
      "status t1 = 0" "ack t1 = ack t" "rdir t1 = rdir t" "registers t1 = registers t"
      "direction t1 = direction t" "bit (USICR t1) USIOIE"
      by blast
    have "ack t1 = 0" "drop_bit 1 d = direction t1" "unat (rdir t1) < length (registers t1)"
      using t t1 h by simp_all
    from slot_addr_r [OF t1(2) this(1) t1(7) this(2) h(3) this(3), of p sr1 pn1 d2 sr2 pn2 "[]"]
    obtain u where "transcript p [OVF d sr1 pn1, OVF d2 sr2 pn2] t1 =
       prepend [registers t1 ! unat (rdir t1)] (Inr ([], u))"
      by auto
    then show ?thesis using t1 t by simp
  qed
  show ?thesis
    using run t later by (intro exI [of _ t]) simp
qed

theorem stop_flag_resets_pointer_witness:
  "\<exists>t. USI_OVF_vect attiny85 []
          (example_slave\<lparr>status := 3, ack := 1, rdir := 4, USISR := bitv USIPF\<rparr>) = Inr t \<and>
     rdir t = 0 \<and> status t = 0 \<and> \<not> bit (USICR t) USIOIE \<and>
     (\<exists>u. transcript attiny85 [START, OVF 0x41 0 [], OVF 0 0 []] t = Inr ([0], u))"
proof -
  let ?s = "example_slave\<lparr>status := 3, ack := 1, rdir := 4, USISR := bitv USIPF\<rparr>"
  have h: "ack ?s \<noteq> 0" "status ?s = 3" "bit (USISR ?s) USIPF"
    by (simp_all add: bitv_def USIPF_def)
  have g: "bit (USICR ?s) USISIE" "drop_bit 1 (0x41 :: 8 word) = direction ?s"
    "(0x41 :: 8 word) AND 1 = 1" "registers ?s \<noteq> []"
    by code_simp+
  have r: "registers ?s ! 0 = 0"
    by code_simp
  from stop_flag_resets_pointer [OF h, where p = attiny85 and pn = "[]" and d = "0x41"
      and ?sr1.0 = 0 and ?pn1.0 = "[]" and ?d2.0 = 0 and ?sr2.0 = 0 and ?pn2.0 = "[]"
      and dr = 0 and sr = 0 and pn' = "[]"] g
  obtain t u where "USI_OVF_vect attiny85 [] ?s = Inr t" "rdir t = 0" "status t = 0"
    "\<not> bit (USICR t) USIOIE"
    "transcript attiny85 [START, OVF 0x41 0 [], OVF 0 0 []] t = Inr ([registers ?s ! 0], u)"
    by blast
  then show ?thesis
    unfolding r by blast
qed

text \<open>
  C9. The pointer is a byte, and both increments are additions of 1 to that byte: the one
  after the ACK bit of a written data byte (\<^verbatim>\<open>status\<close> 3, no stop flagged) and the one
  after an ACK of the master in a read (\<^verbatim>\<open>status\<close> 5). The new pointer is the old one
  plus 1 modulo 256, and 255 is followed by 0.
\<close>

theorem pointer_increment_wraps:
  assumes "ack s \<noteq> 0"
    and "status s = 3 \<and> \<not> bit (USISR s) USIPF \<or>
         status s = 5 \<and> master_ack p pn \<and> unat (rdir s + 1) < length (registers s)"
  shows "\<exists>t. USI_OVF_vect p pn s = Inr t \<and> rdir t = rdir s + 1 \<and>
     unat (rdir t) = (unat (rdir s) + 1) mod 256 \<and> (rdir s = 255 \<longrightarrow> rdir t = 0)"
proof -
  have arith: "unat (rdir s + 1) = (unat (rdir s) + 1) mod 256"
    by (simp add: unat_word_ariths)
  from assms(2) show ?thesis
  proof
    assume "status s = 3 \<and> \<not> bit (USISR s) USIPF"
    with assms(1) arith show ?thesis by (simp add: ovf_defs)
  next
    assume a: "status s = 5 \<and> master_ack p pn \<and> unat (rdir s + 1) < length (registers s)"
    then obtain x xs r where
      pn: "pn = x # xs" "\<not> bit x (SDAP p)" "loop_until_bit_is_clear (SCLP p) xs = Inr r"
      using master_ackD by blast
    with assms(1) a arith show ?thesis by (simp add: ovf_defs)
  qed
qed

theorem pointer_increment_wraps_witness:
  "(\<exists>t. USI_OVF_vect attiny85 []
          (example_slave\<lparr>status := 3, ack := 1, rdir := 255, USISR := 0\<rparr>) = Inr t \<and>
        rdir t = 0) \<and>
   (\<exists>t. USI_OVF_vect attiny85 [4, 4, 0] (example_slave\<lparr>status := 5, ack := 1, rdir := 255\<rparr>) = Inr t \<and>
        rdir t = 0)"
proof -
  let ?s = "example_slave\<lparr>status := 3, ack := 1, rdir := 255, USISR := 0\<rparr>"
  let ?r = "example_slave\<lparr>status := 5, ack := 1, rdir := 255\<rparr>"
  have h: "ack ?s \<noteq> 0" "status ?s = 3 \<and> \<not> bit (USISR ?s) USIPF \<or>
         status ?s = 5 \<and> master_ack attiny85 [] \<and> unat (rdir ?s + 1) < length (registers ?s)"
    by code_simp+
  have g: "ack ?r \<noteq> 0" "status ?r = 3 \<and> \<not> bit (USISR ?r) USIPF \<or>
         status ?r = 5 \<and> master_ack attiny85 [4, 4, 0] \<and>
         unat (rdir ?r + 1) < length (registers ?r)"
    by code_simp+
  from pointer_increment_wraps [OF h] pointer_increment_wraps [OF g]
  show ?thesis by auto
qed

section \<open>Transactions\<close>



text \<open>
  C2, as stated, fails on its example: slave address 0x20, write of address byte 0x40,
  pointer byte 0x03 and data byte 0xAB, then address byte 0x41 and a read of one byte.
  Register 3 holds 0xAB afterwards, but the byte sent is the one of register 4 (here 4):
  the pointer has stepped past the byte written. When the stop condition is already
  flagged at the ACK bit of the data byte, the pointer is reset and the byte sent is the
  one of register 0 (here 0).
\<close>

theorem example_scenario_counterexample:
  "observe (usi_i2c_read_registers_u8 3)
     (transcript attiny85
        [OVF 0x40 0 [], OVF 0 0 [], OVF 0x03 0 [], OVF 0 0 [], OVF 0xAB 0 [], OVF 0 0 [],
         START, OVF 0x41 0 [], OVF 0 0 [], OVF 0 0 [], OVF 0 0 [5, 5, 1]]
        example_slave) = Inr ([4], Inr 0xAB) \<and>
   observe (usi_i2c_read_registers_u8 3)
     (transcript attiny85
        [OVF 0x40 0 [], OVF 0 0 [], OVF 0x03 0 [], OVF 0 0 [], OVF 0xAB 0 [], OVF 0 0x20 [],
         START, OVF 0x41 0 [], OVF 0 0 [], OVF 0 0 [], OVF 0 0 [5, 5, 1]]
        example_slave) = Inr ([0], Inr 0xAB)"
  by code_simp

text \<open>
  C2, amended. After a write of pointer byte \<open>P\<close> and \<open>k\<close> data bytes (no stop flagged at
  an ACK bit), a start condition and the own address with R/W = 1, the slave sends the
  registers from pointer \<open>P + k\<close> on (modulo 256), in order: the first one after the
  address, one more for every ACK of the master. The registers are those the write has
  left, and the pointer ends on the last byte sent.
\<close>

theorem read_after_write:
  assumes "status s = 0" "ack s = 0" "bit (USICR s) USIOIE" "bit (USICR s) USISIE"
    and "write_frame (direction s) P ds wevs"
    and "in_range P (length ds) (length (registers s))"
    and "read_frame p (direction s) n revs"
    and "in_range (P + of_nat (length ds)) (Suc n) (length (registers s))"
  shows "\<exists>t. transcript p (wevs @ START # revs) s =
       Inr (window (stored P ds (registers s)) (P + of_nat (length ds)) (Suc n), t) \<and>
     registers t = stored P ds (registers s) \<and>
     rdir t = P + of_nat (length ds) + of_nat n \<and> status t = 4"
proof -
  from write_frame_run [OF assms(5,1,2,3,6), of p "START # revs"]
  obtain t1 where t1: "transcript p (wevs @ START # revs) s = transcript p (START # revs) t1"
    "status t1 = 2" "ack t1 = 0" "rdir t1 = P + of_nat (length ds)"
    "registers t1 = stored P ds (registers s)" "direction t1 = direction s"
    "USICR t1 = USICR s"
    by blast
  have "status t1 = 0 \<or> status t1 = 2 \<and> bit (USICR t1) USIOIE" "bit (USICR t1) USISIE"
    using t1 assms(3,4) by simp_all
  from start_step [OF this, of p revs]
  obtain t2 where t2: "transcript p (START # revs) t1 = transcript p revs t2"
    "status t2 = 0" "ack t2 = ack t1" "rdir t2 = rdir t1" "registers t2 = registers t1"
    "direction t2 = direction t1" "bit (USICR t2) USIOIE"
    by blast
  have "read_frame p (direction t2) n revs" "ack t2 = 0"
    "in_range (rdir t2) (Suc n) (length (registers t2))"
    using t1 t2 assms(7,8) by simp_all
  from read_frame_run [OF this(1) t2(2) this(2) t2(7) this(3), of "[]"]
  obtain t where t: "transcript p revs t2 =
      Inr (window (registers t2) (rdir t2) (Suc n), t)"
    "status t = 4" "rdir t = rdir t2 + of_nat n" "registers t = registers t2"
    by auto
  have "transcript p (wevs @ START # revs) s =
       Inr (window (stored P ds (registers s)) (P + of_nat (length ds)) (Suc n), t)"
    by (simp only: t1(1) t2(1) t(1) t2(4,5) t1(4,5))
  then show ?thesis
    using t t1 t2 by (intro exI [of _ t]) simp
qed

theorem read_after_write_witness:
  "\<exists>t. transcript attiny85
          ([OVF 0x40 0 [], OVF 0 0 [], OVF 0x03 0 [], OVF 0 0 [], OVF 0xAB 0 [], OVF 0 0 []] @
           START # [OVF 0x41 0 [], OVF 0 0 [], OVF 0 0 [], OVF 0 0 [4, 4, 0]])
          example_slave = Inr ([4, 5], t) \<and> rdir t = 5"
proof -
  let ?wevs = "[OVF 0x40 0 [], OVF 0 0 [], OVF 0x03 0 [], OVF 0 0 [], OVF 0xAB 0 [], OVF 0 0 []]"
  let ?revs = "[OVF 0x41 0 [], OVF 0 0 [], OVF 0 0 [], OVF 0 0 [4, 4, 0]]"
  have h: "status example_slave = 0" "ack example_slave = 0"
    "bit (USICR example_slave) USIOIE" "bit (USICR example_slave) USISIE"
    "write_frame (direction example_slave) 3 [0xAB] ?wevs"
    "in_range 3 (length [0xAB :: 8 word]) (length (registers example_slave))"
    "read_frame attiny85 (direction example_slave) 1 ?revs"
    "in_range (3 + of_nat (length [0xAB :: 8 word])) (Suc 1) (length (registers example_slave))"
    by code_simp+
  have e: "window (stored 3 [0xAB] (registers example_slave))
             (3 + of_nat (length [0xAB :: 8 word])) (Suc 1) = [4, 5]"
    "(3 :: 8 word) + of_nat (length [0xAB :: 8 word]) + of_nat 1 = 5"
    by code_simp+
  from read_after_write [OF h]
  obtain t where t: "transcript attiny85 (?wevs @ START # ?revs) example_slave =
      Inr (window (stored 3 [0xAB] (registers example_slave))
             (3 + of_nat (length [0xAB :: 8 word])) (Suc 1), t)"
    "rdir t = 3 + of_nat (length [0xAB :: 8 word]) + of_nat 1"
    by blast
  have "transcript attiny85 (?wevs @ START # ?revs) example_slave = Inr ([4, 5], t)" "rdir t = 5"
    using t by (simp_all only: e)
  then show ?thesis by blast
qed

text \<open>
  C3, as stated, fails: a read that starts at pointer 3 and whose first byte the master
  answers with NACK sends one byte and leaves the pointer at 0, not at 3.
\<close>

theorem nack_pointer_counterexample:
  "observe rdir
     (transcript attiny85
        [OVF 0x40 0 [], OVF 0 0 [], OVF 0x03 0 [], OVF 0 0 [],
         START, OVF 0x41 0 [], OVF 0 0 [], OVF 0 0 [], OVF 0 0 [5, 5, 1]]
        example_slave) = Inr ([3], 0)"
  by code_simp

text \<open>
  C3, amended. A read that starts at pointer \<open>P\<close>, in which the master answers \<open>n\<close> bytes
  with ACK and the next one with NACK, sends exactly those \<open>n + 1\<close> bytes (the registers
  from \<open>P\<close> on) and ends: \<^verbatim>\<open>status\<close> is 0, the overflow interrupt is disabled, and the
  pointer is 0.
\<close>

theorem read_ends_on_nack:
  assumes "status s = 0" "ack s = 0" "bit (USICR s) USIOIE"
    and "read_frame p (direction s) n revs" "nack_slot p nevs"
    and "in_range (rdir s) (Suc n) (length (registers s))"
  shows "\<exists>t. transcript p (revs @ nevs) s = Inr (window (registers s) (rdir s) (Suc n), t) \<and>
     length (window (registers s) (rdir s) (Suc n)) = Suc n \<and>
     status t = 0 \<and> rdir t = 0 \<and> ack t = 0 \<and> \<not> bit (USICR t) USIOIE \<and>
     registers t = registers s"
proof -
  from read_frame_run [OF assms(4,1,2,3,6), of nevs]
  obtain t1 where t1: "transcript p (revs @ nevs) s =
      prepend (window (registers s) (rdir s) (Suc n)) (transcript p nevs t1)"
    "status t1 = 4" "ack t1 = 0" "registers t1 = registers s" "USICR t1 = USICR s"
    by blast
  have "bit (USICR t1) USIOIE"
    using t1 assms(3) by simp
  from nack_slot_run [OF assms(5) t1(2,3) this, of "[]"]
  obtain t where t: "transcript p nevs t1 = Inr ([], t)"
    "status t = 0" "ack t = 0" "rdir t = 0" "registers t = registers t1"
    "USICR t = USICR t1 AND NOT (bitv USIOIE)"
    by auto
  have "transcript p (revs @ nevs) s = Inr (window (registers s) (rdir s) (Suc n), t)"
    by (simp add: t1(1) t(1))
  moreover have "\<not> bit (USICR t) USIOIE"
    by (simp add: t(6))
  ultimately show ?thesis
    using t t1 by (intro exI [of _ t]) simp
qed

theorem read_ends_on_nack_witness:
  "\<exists>t. transcript attiny85
          ([OVF 0x41 0 [], OVF 0 0 [], OVF 0 0 [], OVF 0 0 [4, 4, 0]] @
           [OVF 0 0 [], OVF 0 0 [5, 5, 1]])
          (example_slave\<lparr>rdir := 3\<rparr>) = Inr ([3, 4], t) \<and>
     status t = 0 \<and> rdir t = 0 \<and> \<not> bit (USICR t) USIOIE"
proof -
  let ?s = "example_slave\<lparr>rdir := 3\<rparr>"
  let ?revs = "[OVF 0x41 0 [], OVF 0 0 [], OVF 0 0 [], OVF 0 0 [4, 4, 0]]"
  let ?nevs = "[OVF 0 0 [], OVF 0 0 [5, 5, 1]]"
  have h: "status ?s = 0" "ack ?s = 0" "bit (USICR ?s) USIOIE"
    "read_frame attiny85 (direction ?s) 1 ?revs" "nack_slot attiny85 ?nevs"
    "in_range (rdir ?s) (Suc 1) (length (registers ?s))"
    by code_simp+
  have e: "window (registers ?s) (rdir ?s) (Suc 1) = [3, 4]"
    by code_simp
  from read_ends_on_nack [OF h]
  obtain t where t: "transcript attiny85 (?revs @ ?nevs) ?s =
      Inr (window (registers ?s) (rdir ?s) (Suc 1), t)"
    "status t = 0" "rdir t = 0" "\<not> bit (USICR t) USIOIE"
    by blast
  have "transcript attiny85 (?revs @ ?nevs) ?s = Inr ([3, 4], t)"
    using t(1) by (simp only: e)
  with t show ?thesis by blast
qed

end
